theory Spec2Isabelle
  imports Complex_Main
begin

section \<open>Auto-ranging ohm meter: the firmware of Nano\_Code\_Rev1-3\_1.ino\<close>

text \<open>
  The sketch keeps its measurement state in global \<^verbatim>\<open>volatile double\<close> scalars and
  talks to three peripherals: the ADS1115 converter, four MOSFET pins and a character
  display. The embedding below keeps the globals as the fields of one record, threads
  that record through every function, and writes each peripheral call as an entry of a
  log held in the record, so that the order of the calls can be stated.
\<close>

subsection \<open>The scalar type\<close>

text \<open>
  A \<^verbatim>\<open>double\<close> is modelled by its value: a real number, one of the two infinities,
  or not-a-number. Rounding is not modelled (a finite result is the exact real result),
  and zero carries no sign: a zero divisor is read as \<^verbatim>\<open>+0.0\<close>, the only zero the
  converter's voltage computation produces. The non-finite values are kept because the
  sketch divides by a current that is zero whenever no resistor is attached.
\<close>

datatype dbl = Fin real | PInf | NInf | NaN

instantiation dbl :: plus
begin

fun plus_dbl :: "dbl \<Rightarrow> dbl \<Rightarrow> dbl" where
  "Fin a + Fin b = Fin (a + b)"
| "NaN + y = NaN"
| "x + NaN = NaN"
| "PInf + NInf = NaN"
| "NInf + PInf = NaN"
| "PInf + y = PInf"
| "x + PInf = PInf"
| "NInf + y = NInf"
| "x + NInf = NInf"

instance ..

end

instantiation dbl :: minus
begin

fun minus_dbl :: "dbl \<Rightarrow> dbl \<Rightarrow> dbl" where
  "Fin a - Fin b = Fin (a - b)"
| "NaN - y = NaN"
| "x - NaN = NaN"
| "PInf - PInf = NaN"
| "NInf - NInf = NaN"
| "PInf - y = PInf"
| "x - NInf = PInf"
| "NInf - y = NInf"
| "x - PInf = NInf"

instance ..

end

instantiation dbl :: times
begin

fun times_dbl :: "dbl \<Rightarrow> dbl \<Rightarrow> dbl" where
  "Fin a * Fin b = Fin (a * b)"
| "NaN * y = NaN"
| "x * NaN = NaN"
| "PInf * Fin b = (if b = 0 then NaN else if 0 < b then PInf else NInf)"
| "NInf * Fin b = (if b = 0 then NaN else if 0 < b then NInf else PInf)"
| "Fin a * PInf = (if a = 0 then NaN else if 0 < a then PInf else NInf)"
| "Fin a * NInf = (if a = 0 then NaN else if 0 < a then NInf else PInf)"
| "PInf * PInf = PInf"
| "NInf * NInf = PInf"
| "PInf * NInf = NInf"
| "NInf * PInf = NInf"

instance ..

end

instantiation dbl :: inverse
begin

fun divide_dbl :: "dbl \<Rightarrow> dbl \<Rightarrow> dbl" where
  "divide_dbl (Fin a) (Fin b) =
     (if b \<noteq> 0 then Fin (a / b)
      else if a = 0 then NaN else if 0 < a then PInf else NInf)"
| "divide_dbl NaN y = NaN"
| "divide_dbl x NaN = NaN"
| "divide_dbl (Fin a) PInf = Fin 0"
| "divide_dbl (Fin a) NInf = Fin 0"
| "divide_dbl PInf (Fin b) = (if 0 \<le> b then PInf else NInf)"
| "divide_dbl NInf (Fin b) = (if 0 \<le> b then NInf else PInf)"
| "divide_dbl x y = NaN"

definition inverse_dbl :: "dbl \<Rightarrow> dbl" where
  "inverse_dbl x = Fin 1 div x"

instance ..

end

instantiation dbl :: ord
begin

fun less_dbl :: "dbl \<Rightarrow> dbl \<Rightarrow> bool" where
  "Fin a < Fin b \<longleftrightarrow> a < b"
| "NaN < y \<longleftrightarrow> False"
| "x < NaN \<longleftrightarrow> False"
| "NInf < NInf \<longleftrightarrow> False"
| "NInf < y \<longleftrightarrow> True"
| "PInf < y \<longleftrightarrow> False"
| "x < PInf \<longleftrightarrow> True"
| "x < NInf \<longleftrightarrow> False"

fun less_eq_dbl :: "dbl \<Rightarrow> dbl \<Rightarrow> bool" where
  "Fin a \<le> Fin b \<longleftrightarrow> a \<le> b"
| "NaN \<le> y \<longleftrightarrow> False"
| "x \<le> NaN \<longleftrightarrow> False"
| "NInf \<le> y \<longleftrightarrow> True"
| "x \<le> PInf \<longleftrightarrow> True"
| "PInf \<le> y \<longleftrightarrow> False"
| "x \<le> NInf \<longleftrightarrow> False"

instance ..

end

text \<open>\<^verbatim>\<open>pow(x, -1)\<close>, the only negative power the sketch takes, is the reciprocal.\<close>

definition pow_m1 :: "dbl \<Rightarrow> dbl" where
  "pow_m1 x = Fin 1 / x"

subsection \<open>Peripherals and state\<close>

datatype level = LOW | HIGH

datatype adsGain =
  GAIN_TWOTHIRDS | GAIN_ONE | GAIN_TWO | GAIN_FOUR | GAIN_EIGHT | GAIN_SIXTEEN

text \<open>The three differential channel pairs the sketch converts.\<close>

datatype channel = Differential_0_1 | Differential_0_3 | Differential_2_3

text \<open>
  What is sent to the display. \<open>PrintValue x suffix\<close> stands for
  \<^verbatim>\<open>lcd.print(String(x) + suffix)\<close>: the number whose decimal rendering is printed,
  followed by the literal suffix.
\<close>

datatype lcd_cmd =
  Clear | SetCursor nat nat | Print string | PrintValue dbl string

text \<open>
  The globals of the sketch, the function-static \<^verbatim>\<open>openSwitches\<close> of
  \<^verbatim>\<open>readVoltages\<close>, the converter's gain setting, and the logs of the peripheral
  calls made so far: every \<^verbatim>\<open>digitalWrite\<close> (pin, level), every conversion
  (channel, gain in force) and every display command. \<^verbatim>\<open>openSwitches\<close> is a
  \<^verbatim>\<open>byte\<close> that starts at 4, is incremented only below 4 and decremented only
  above 0, so it never wraps and is kept as a natural number.
\<close>

record meter =
  unknownResistance :: dbl
  knownResistance :: dbl
  unknownVoltage :: dbl
  knownVoltage :: dbl
  referenceVoltage :: dbl
  current :: dbl
  openSwitches :: nat
  gain :: adsGain
  digitalLog :: "(nat \<times> level) list"
  adcLog :: "(channel \<times> adsGain) list"
  lcd :: "lcd_cmd list"

definition res_100k :: nat where "res_100k = 2"
definition res_10k :: nat where "res_10k = 3"
definition res_1k :: nat where "res_1k = 4"
definition res_220 :: nat where "res_220 = 5"

definition RESISTOR_1M :: nat where "RESISTOR_1M = 990090"
definition LEAD_RESISTANCE :: dbl where "LEAD_RESISTANCE = Fin 0.08"

subsection \<open>displayMeasurement\<close>

definition lcdSend :: "lcd_cmd \<Rightarrow> meter \<Rightarrow> meter" where
  "lcdSend c s = s\<lparr>lcd := lcd s @ [c]\<rparr>"

definition displayMeasurement :: "meter \<Rightarrow> meter" where
  "displayMeasurement s0 =
     (let s = lcdSend Clear s0 in
      if unknownResistance s < Fin 0 \<or> Fin (1.5 * 10 ^ 6) \<le> unknownResistance s
      then
        lcdSend (Print ''Range: 0 - 1.5M'')
          (lcdSend (SetCursor 0 1)
            (lcdSend (Print ''OL'')
              (lcdSend (SetCursor 7 0) (s\<lparr>unknownResistance := Fin 0\<rparr>))))
      else
        (let s1 = lcdSend (SetCursor 0 0) s;
             resistance = unknownResistance s1 - LEAD_RESISTANCE;
             resistance' =
               (if Fin (5.0 * 10 ^ 5) \<le> resistance then resistance * Fin 1.025
                else resistance)
         in lcdSend (PrintValue resistance' '' ohms'') s1))"

subsection \<open>calculateCurrent and calculateResistance\<close>

definition calculateCurrent :: "meter \<Rightarrow> meter" where
  "calculateCurrent s = s\<lparr>current := knownVoltage s / knownResistance s\<rparr>"

definition calculateResistance :: "meter \<Rightarrow> meter" where
  "calculateResistance s =
     (let calculatedResistance = unknownVoltage s / current s
      in s\<lparr>unknownResistance := (unknownResistance s + calculatedResistance) / Fin 2\<rparr>)"

subsection \<open>readVoltages\<close>

text \<open>
  The converter is an input of the model: \<open>adc n ch\<close> is the voltage that
  \<^verbatim>\<open>computeVolts\<close> returns for the \<open>n\<close>-th conversion the sketch requests, when
  that conversion is of channel \<open>ch\<close>. Any dependence of a reading on the taps
  enabled, on the gain or on time is a property of this function, about which nothing is
  assumed. A 16-bit count times a finite scale is a finite voltage.
\<close>

type_synonym adc = "nat \<Rightarrow> channel \<Rightarrow> real"

definition computeVolts :: "adc \<Rightarrow> channel \<Rightarrow> meter \<Rightarrow> dbl" where
  "computeVolts env ch s = Fin (env (length (adcLog s)) ch)"

definition readADC :: "channel \<Rightarrow> meter \<Rightarrow> meter" where
  "readADC ch s = s\<lparr>adcLog := adcLog s @ [(ch, gain s)]\<rparr>"

definition readReference :: "adc \<Rightarrow> meter \<Rightarrow> meter" where
  "readReference env s =
     (readADC Differential_0_3 s)\<lparr>referenceVoltage := computeVolts env Differential_0_3 s\<rparr>"

definition readKnown :: "adc \<Rightarrow> meter \<Rightarrow> meter" where
  "readKnown env s =
     (readADC Differential_2_3 s)\<lparr>knownVoltage := computeVolts env Differential_2_3 s\<rparr>"

definition readUnknown :: "adc \<Rightarrow> meter \<Rightarrow> meter" where
  "readUnknown env s =
     (readADC Differential_0_1 s)\<lparr>unknownVoltage := computeVolts env Differential_0_1 s\<rparr>"

definition setGain :: "adsGain \<Rightarrow> meter \<Rightarrow> meter" where
  "setGain g s = s\<lparr>gain := g\<rparr>"

definition digitalWrite :: "nat \<Rightarrow> level \<Rightarrow> meter \<Rightarrow> meter" where
  "digitalWrite pin v s = s\<lparr>digitalLog := digitalLog s @ [(pin, v)]\<rparr>"

definition RESISTANCE_VALUES :: "nat list" where
  "RESISTANCE_VALUES = [220, 1000, 9997, 100078]"

definition NUMBER_OF_SWITCHES :: nat where
  "NUMBER_OF_SWITCHES = 4"

definition SWITCHES :: "nat list" where
  "SWITCHES = [res_220, res_1k, res_10k, res_100k]"

text \<open>
  The first loop of \<^verbatim>\<open>readVoltages\<close>:
  \<^verbatim>\<open>while (openSwitches < NUMBER_OF_SWITCHES) digitalWrite(SWITCHES[openSwitches++], LOW);\<close>
\<close>

function removeParallel :: "meter \<Rightarrow> meter" where
  "removeParallel s =
     (if openSwitches s < NUMBER_OF_SWITCHES
      then removeParallel
             ((digitalWrite (SWITCHES ! openSwitches s) LOW s)
                \<lparr>openSwitches := Suc (openSwitches s)\<rparr>)
      else s)"
  by pat_completeness auto
termination
  by (relation "measure (\<lambda>s. NUMBER_OF_SWITCHES - openSwitches s)")
     (auto simp: digitalWrite_def)

declare removeParallel.simps [simp del]

text \<open>
  The body of the second loop: pre-decrement \<^verbatim>\<open>openSwitches\<close>, drive that switch
  high, put its resistor in parallel with the known resistance, and convert the known
  and the reference voltage again.
\<close>

definition enableNext :: "adc \<Rightarrow> meter \<Rightarrow> meter" where
  "enableNext env s =
     (let s1 = s\<lparr>openSwitches := openSwitches s - 1\<rparr>;
          s2 = digitalWrite (SWITCHES ! openSwitches s1) HIGH s1;
          s3 = s2\<lparr>knownResistance :=
                  Fin 1 / (pow_m1 (knownResistance s2)
                            + pow_m1 (Fin (real (RESISTANCE_VALUES ! openSwitches s2))))\<rparr>
      in readReference env (readKnown env s3))"

function addParallel :: "adc \<Rightarrow> meter \<Rightarrow> meter" where
  "addParallel env s =
     (if referenceVoltage s * Fin 0.75 < knownVoltage s \<and> 0 < openSwitches s
      then addParallel env (enableNext env s)
      else s)"
  by pat_completeness auto
termination
  by (relation "measure (\<lambda>(env, s). openSwitches s)")
     (auto simp: enableNext_def readReference_def readKnown_def readADC_def
                 digitalWrite_def Let_def)

declare addParallel.simps [simp del]

text \<open>The chain of comparisons that picks the gain for the second conversion.\<close>

definition selectGain :: "dbl \<Rightarrow> adsGain" where
  "selectGain unknownV =
     (if Fin (- 0.256) < unknownV \<and> unknownV < Fin 0.256 then GAIN_SIXTEEN
      else if Fin (- 0.512) < unknownV \<and> unknownV < Fin 0.512 then GAIN_EIGHT
      else if Fin (- 0.124) < unknownV \<and> unknownV < Fin 1.024 then GAIN_FOUR
      else if Fin (- 2.048) < unknownV \<and> unknownV < Fin 2.048 then GAIN_TWO
      else if Fin (- 4.096) < unknownV \<and> unknownV < Fin 4.096 then GAIN_ONE
      else GAIN_TWOTHIRDS)"

definition readVoltages :: "adc \<Rightarrow> meter \<Rightarrow> meter" where
  "readVoltages env s0 =
     (let s1 = (removeParallel s0)\<lparr>knownResistance := Fin (real RESISTOR_1M)\<rparr>;
          s2 = readKnown env (readReference env s1);
          s3 = addParallel env s2;
          s4 = readUnknown env s3;
          s5 = setGain (selectGain (unknownVoltage s4)) s4;
          s6 = readUnknown env s5
      in setGain GAIN_TWOTHIRDS s6)"

text \<open>
  One pass through the sampling branch of \<^verbatim>\<open>loop\<close>:
  \<^verbatim>\<open>readVoltages(); calculateCurrent(); calculateResistance();\<close>
  The display branch is \<^verbatim>\<open>displayMeasurement\<close> alone. Which branch runs on a pass
  is decided by \<^verbatim>\<open>millis()\<close>; the properties below hold for each branch whenever
  it runs, so the clock is left out.
\<close>

definition sample :: "adc \<Rightarrow> meter \<Rightarrow> meter" where
  "sample env s = calculateResistance (calculateCurrent (readVoltages env s))"

subsection \<open>setup\<close>

text \<open>
  The state in which \<^verbatim>\<open>setup\<close> leaves the meter: the four switches written low in
  the order of the source, the known resistance at its 1 Mohm value, the other globals
  zero-initialised, no switch closed. The gain is the converter library's own default,
  which the header comment of the sketch gives as the 2/3x tier.
\<close>

definition initial :: meter where
  "initial =
     \<lparr>unknownResistance = Fin 0, knownResistance = Fin (real RESISTOR_1M),
      unknownVoltage = Fin 0, knownVoltage = Fin 0, referenceVoltage = Fin 0,
      current = Fin 0, openSwitches = 4, gain = GAIN_TWOTHIRDS,
      digitalLog = [(res_100k, LOW), (res_10k, LOW), (res_1k, LOW), (res_220, LOW)],
      adcLog = [], lcd = []\<rparr>"

text \<open>
  \<^verbatim>\<open>setup\<close> returns only when \<^verbatim>\<open>ads.begin()\<close> succeeds; otherwise it prints a
  message and spins in \<^verbatim>\<open>while (1)\<close> for ever, which is the value \<open>None\<close>.
  (The name \<open>setup\<close> itself is reserved in Isabelle.)
\<close>

definition setup_sketch :: "bool \<Rightarrow> meter option" where
  "setup_sketch adsBegin = (if adsBegin then Some initial else None)"

subsection \<open>Reference notions the properties are stated against\<close>

text \<open>The reciprocal-sum rule for a resistance \<open>b\<close> with resistances \<open>rs\<close> in parallel.\<close>

definition parallel :: "real \<Rightarrow> real list \<Rightarrow> real" where
  "parallel b rs = 1 / (1 / b + (\<Sum>r\<leftarrow>rs. 1 / r))"

text \<open>
  The switches that are closed in a state, in the order in which the second loop of
  \<^verbatim>\<open>readVoltages\<close> closes them: \<^verbatim>\<open>openSwitches\<close> counts down from
  \<^verbatim>\<open>NUMBER_OF_SWITCHES\<close>, and the switch closed is the one it has just reached.
\<close>

definition enabledTaps :: "meter \<Rightarrow> nat list" where
  "enabledTaps s = rev [openSwitches s ..< NUMBER_OF_SWITCHES]"

text \<open>
  The gain table of the sketch's header comment, narrowest range first: each gain with
  the bound of its symmetric range in volts.
\<close>

definition gainTiers :: "(adsGain \<times> real) list" where
  "gainTiers =
     [(GAIN_SIXTEEN, 0.256), (GAIN_EIGHT, 0.512), (GAIN_FOUR, 1.024),
      (GAIN_TWO, 2.048), (GAIN_ONE, 4.096), (GAIN_TWOTHIRDS, 6.144)]"

text \<open>
  The selection as the specification words it: the first tier, from the narrowest, whose
  range contains the voltage, a voltage on a bound shared by two tiers going to the
  narrower one.
\<close>

definition spec_narrowestTier :: "real \<Rightarrow> adsGain option" where
  "spec_narrowestTier v =
     map_option fst (find (\<lambda>(g, r). - r \<le> v \<and> v \<le> r) gainTiers)"

text \<open>
  The same search with the bounds excluded, and the widest tier when no range contains
  the voltage.
\<close>

definition strictTier :: "real \<Rightarrow> adsGain" where
  "strictTier v =
     (case find (\<lambda>(g, r). - r < v \<and> v < r) gainTiers of
        Some (g, r) \<Rightarrow> g
      | None \<Rightarrow> GAIN_TWOTHIRDS)"

text \<open>
  The state in which the second loop of \<^verbatim>\<open>readVoltages\<close> is entered: switches
  opened, known resistance reset, reference and known voltage converted once.
\<close>

definition beforeSearch :: "adc \<Rightarrow> meter \<Rightarrow> meter" where
  "beforeSearch env s0 =
     readKnown env (readReference env
       ((removeParallel s0)\<lparr>knownResistance := Fin (real RESISTOR_1M)\<rparr>))"

text \<open>
  A bench scenario: the reference reads 5 V throughout; the known voltage reads 4.5 V,
  then 4 V once one switch is closed, then 3 V once a second one is; the unknown
  resistor reads 0.3 V.
\<close>

definition bench :: adc where
  "bench n ch =
     (case ch of
        Differential_0_3 \<Rightarrow> 5
      | Differential_2_3 \<Rightarrow> (if n < 2 then 4.5 else if n < 4 then 4 else 3)
      | Differential_0_1 \<Rightarrow> 0.3)"

section \<open>Properties\<close>

subsection \<open>The two loops of readVoltages\<close>

lemma removeParallel_eq:
  "removeParallel s =
     s\<lparr>openSwitches := max (openSwitches s) NUMBER_OF_SWITCHES,
       digitalLog := digitalLog s @
          map (\<lambda>i. (SWITCHES ! i, LOW)) [openSwitches s ..< NUMBER_OF_SWITCHES]\<rparr>"
proof (induction s rule: removeParallel.induct)
  case (1 s)
  show ?case
  proof (cases "openSwitches s < NUMBER_OF_SWITCHES")
    case True
    have "removeParallel s = removeParallel
             ((digitalWrite (SWITCHES ! openSwitches s) LOW s)
                \<lparr>openSwitches := Suc (openSwitches s)\<rparr>)"
      using True by (subst removeParallel.simps) simp
    also have "\<dots> = s\<lparr>openSwitches := max (openSwitches s) NUMBER_OF_SWITCHES,
       digitalLog := digitalLog s @
          map (\<lambda>i. (SWITCHES ! i, LOW)) [openSwitches s ..< NUMBER_OF_SWITCHES]\<rparr>"
      using True
      by (subst "1.IH" [OF True]) (simp add: digitalWrite_def upt_conv_Cons max_def)
    finally show ?thesis .
  next
    case False
    then show ?thesis by (subst removeParallel.simps) (simp add: max_def)
  qed
qed

lemma enableNext_simps:
  "openSwitches (enableNext env s) = openSwitches s - 1"
  "digitalLog (enableNext env s) = digitalLog s @ [(SWITCHES ! (openSwitches s - 1), HIGH)]"
  "knownResistance (enableNext env s) =
     Fin 1 / (pow_m1 (knownResistance s)
               + pow_m1 (Fin (real (RESISTANCE_VALUES ! (openSwitches s - 1)))))"
  "knownVoltage (enableNext env s) = Fin (env (length (adcLog s)) Differential_2_3)"
  "referenceVoltage (enableNext env s) = Fin (env (Suc (length (adcLog s))) Differential_0_3)"
  "adcLog (enableNext env s) = adcLog s @ [(Differential_2_3, gain s), (Differential_0_3, gain s)]"
  "gain (enableNext env s) = gain s"
  "unknownResistance (enableNext env s) = unknownResistance s"
  "unknownVoltage (enableNext env s) = unknownVoltage s"
  "current (enableNext env s) = current s"
  "lcd (enableNext env s) = lcd s"
  by (simp_all add: enableNext_def readReference_def readKnown_def readADC_def
        computeVolts_def digitalWrite_def Let_def)

lemma addParallel_open_le: "openSwitches (addParallel env s) \<le> openSwitches s"
proof (induction env s rule: addParallel.induct)
  case (1 env s)
  show ?case
  proof (cases "referenceVoltage s * Fin 0.75 < knownVoltage s \<and> 0 < openSwitches s")
    case True
    have "addParallel env s = addParallel env (enableNext env s)"
      using True by (subst addParallel.simps) simp
    with "1.IH" [OF True] show ?thesis by (simp add: enableNext_simps)
  next
    case False
    then show ?thesis by (subst addParallel.simps) auto
  qed
qed

lemma rev_upt_step: "k \<le> n - 1 \<Longrightarrow> 0 < n \<Longrightarrow> rev [k..<n] = (n - 1) # rev [k..<n - 1]"
  by (cases n) simp_all

lemma addParallel_log:
  "digitalLog (addParallel env s) =
     digitalLog s @ map (\<lambda>i. (SWITCHES ! i, HIGH))
                      (rev [openSwitches (addParallel env s) ..< openSwitches s])"
proof (induction env s rule: addParallel.induct)
  case (1 env s)
  show ?case
  proof (cases "referenceVoltage s * Fin 0.75 < knownVoltage s \<and> 0 < openSwitches s")
    case True
    have eq: "addParallel env s = addParallel env (enableNext env s)"
      using True by (subst addParallel.simps) simp
    have le: "openSwitches (addParallel env (enableNext env s)) \<le> openSwitches s - 1"
      using addParallel_open_le [of env "enableNext env s"] by (simp add: enableNext_simps)
    show ?thesis
      using "1.IH" [OF True] True le
      by (simp add: eq enableNext_simps rev_upt_step)
  next
    case False
    then show ?thesis by (subst (1 2) addParallel.simps) auto
  qed
qed

lemma addParallel_exit:
  "openSwitches (addParallel env s) = 0 \<or>
   \<not> referenceVoltage (addParallel env s) * Fin 0.75 < knownVoltage (addParallel env s)"
proof (induction env s rule: addParallel.induct)
  case (1 env s)
  show ?case
  proof (cases "referenceVoltage s * Fin 0.75 < knownVoltage s \<and> 0 < openSwitches s")
    case True
    have eq: "addParallel env s = addParallel env (enableNext env s)"
      using True by (subst addParallel.simps) simp
    show ?thesis using "1.IH" [OF True] by (simp add: eq)
  next
    case False
    have "addParallel env s = s" using False by (subst addParallel.simps) auto
    with False show ?thesis by auto
  qed
qed


subsection \<open>Resistances in parallel\<close>

lemma sum_list_pos_recip: "\<forall>r\<in>set rs. 0 < r \<Longrightarrow> 0 \<le> (\<Sum>r\<leftarrow>rs. 1 / (r::real))"
  by (induction rs) auto

lemma parallel_pos: "0 < b \<Longrightarrow> \<forall>r\<in>set rs. 0 < r \<Longrightarrow> 0 < parallel b rs"
  using sum_list_pos_recip [of rs] by (simp add: parallel_def add_pos_nonneg)

lemma parallel_snoc:
  assumes "0 < b" "\<forall>r\<in>set rs. 0 < r" "0 < x"
  shows "1 / (1 / parallel b rs + 1 / x) = parallel b (rs @ [x])"
proof -
  have "0 < 1 / b + (\<Sum>r\<leftarrow>rs. 1 / r)"
    using assms sum_list_pos_recip [of rs] by (simp add: add_pos_nonneg)
  then show ?thesis by (simp add: parallel_def add.assoc)
qed

lemma parallel_snoc_less:
  assumes "0 < b" "\<forall>r\<in>set rs. 0 < r" "0 < x"
  shows "parallel b (rs @ [x]) < parallel b rs"
proof -
  have "0 < 1 / b + (\<Sum>r\<leftarrow>rs. 1 / r)"
    using assms sum_list_pos_recip [of rs] by (simp add: add_pos_nonneg)
  moreover have "0 < 1 / x" using assms by simp
  ultimately show ?thesis
    by (simp add: parallel_def frac_less2)
qed

lemma dbl_parallel_step:
  "0 < p \<Longrightarrow> 0 < x \<Longrightarrow> Fin 1 / (pow_m1 (Fin p) + pow_m1 (Fin x)) = Fin (1 / (1 / p + 1 / x))"
proof -
  assume a: "0 < p" "0 < x"
  then have "0 < 1 / p + 1 / x" by (simp add: add_pos_pos)
  then have "1 / p + 1 / x \<noteq> 0" by simp
  with a show ?thesis by (simp add: pow_m1_def)
qed

lemma RESISTANCE_VALUES_pos: "i < 4 \<Longrightarrow> 0 < RESISTANCE_VALUES ! i"
proof -
  assume "i < 4"
  then consider "i = 0" | "i = 1" | "i = 2" | "i = 3" by linarith
  then show ?thesis by cases (simp_all add: RESISTANCE_VALUES_def)
qed

lemma addParallel_known:
  "knownResistance s = Fin (parallel b rs) \<Longrightarrow> 0 < b \<Longrightarrow> \<forall>r\<in>set rs. 0 < r \<Longrightarrow>
   openSwitches s \<le> 4 \<Longrightarrow>
   knownResistance (addParallel env s) =
     Fin (parallel b (rs @ map (\<lambda>i. real (RESISTANCE_VALUES ! i))
                           (rev [openSwitches (addParallel env s) ..< openSwitches s])))"
proof (induction env s arbitrary: rs rule: addParallel.induct)
  case (1 env s)
  show ?case
  proof (cases "referenceVoltage s * Fin 0.75 < knownVoltage s \<and> 0 < openSwitches s")
    case True
    let ?x = "real (RESISTANCE_VALUES ! (openSwitches s - 1))"
    have eq: "addParallel env s = addParallel env (enableNext env s)"
      using True by (subst addParallel.simps) simp
    have le: "openSwitches (addParallel env (enableNext env s)) \<le> openSwitches s - 1"
      using addParallel_open_le [of env "enableNext env s"] by (simp add: enableNext_simps)
    have x: "0 < ?x" using True "1.prems"(4) RESISTANCE_VALUES_pos [of "openSwitches s - 1"] by simp
    have kr: "knownResistance (enableNext env s) = Fin (parallel b (rs @ [?x]))"
      using "1.prems" x
      by (simp add: enableNext_simps dbl_parallel_step parallel_pos parallel_snoc)
    have pos: "\<forall>r\<in>set (rs @ [?x]). 0 < r" using "1.prems"(3) x by auto
    have "knownResistance (addParallel env (enableNext env s)) =
       Fin (parallel b ((rs @ [?x]) @ map (\<lambda>i. real (RESISTANCE_VALUES ! i))
          (rev [openSwitches (addParallel env (enableNext env s)) ..< openSwitches (enableNext env s)])))"
      using "1.prems"(4) by (intro "1.IH" [OF True kr "1.prems"(2) pos]) (simp add: enableNext_simps)
    then show ?thesis
      using True le by (simp add: eq enableNext_simps rev_upt_step)
  next
    case False
    have "addParallel env s = s" using False by (subst addParallel.simps) auto
    with "1.prems" show ?thesis by simp
  qed
qed

lemma addParallel_preserves:
  "gain (addParallel env s) = gain s \<and>
   unknownResistance (addParallel env s) = unknownResistance s \<and>
   unknownVoltage (addParallel env s) = unknownVoltage s \<and>
   current (addParallel env s) = current s \<and>
   lcd (addParallel env s) = lcd s"
proof (induction env s rule: addParallel.induct)
  case (1 env s)
  show ?case
  proof (cases "referenceVoltage s * Fin 0.75 < knownVoltage s \<and> 0 < openSwitches s")
    case True
    have eq: "addParallel env s = addParallel env (enableNext env s)"
      using True by (subst addParallel.simps) simp
    show ?thesis using "1.IH" [OF True] by (simp add: eq enableNext_simps)
  next
    case False
    have "addParallel env s = s" using False by (subst addParallel.simps) auto
    then show ?thesis by simp
  qed
qed

lemma addParallel_finite:
  "(\<exists>a. knownVoltage s = Fin a) \<Longrightarrow> (\<exists>b. referenceVoltage s = Fin b) \<Longrightarrow>
   (\<exists>a. knownVoltage (addParallel env s) = Fin a) \<and>
   (\<exists>b. referenceVoltage (addParallel env s) = Fin b)"
proof (induction env s rule: addParallel.induct)
  case (1 env s)
  show ?case
  proof (cases "referenceVoltage s * Fin 0.75 < knownVoltage s \<and> 0 < openSwitches s")
    case True
    have eq: "addParallel env s = addParallel env (enableNext env s)"
      using True by (subst addParallel.simps) simp
    show ?thesis using "1.IH" [OF True] by (simp add: eq enableNext_simps)
  next
    case False
    have "addParallel env s = s" using False by (subst addParallel.simps) auto
    with "1.prems" show ?thesis by simp
  qed
qed


subsection \<open>readVoltages around its second loop\<close>

lemma readVoltages_fields:
  "openSwitches (readVoltages env s) = openSwitches (addParallel env (beforeSearch env s))"
  "digitalLog (readVoltages env s) = digitalLog (addParallel env (beforeSearch env s))"
  "knownResistance (readVoltages env s) = knownResistance (addParallel env (beforeSearch env s))"
  "knownVoltage (readVoltages env s) = knownVoltage (addParallel env (beforeSearch env s))"
  "referenceVoltage (readVoltages env s) = referenceVoltage (addParallel env (beforeSearch env s))"
  by (simp_all add: readVoltages_def beforeSearch_def Let_def readUnknown_def setGain_def readADC_def)

lemma beforeSearch_fields:
  "openSwitches (beforeSearch env s) = max (openSwitches s) NUMBER_OF_SWITCHES"
  "digitalLog (beforeSearch env s) = digitalLog s @
      map (\<lambda>i. (SWITCHES ! i, LOW)) [openSwitches s ..< NUMBER_OF_SWITCHES]"
  "knownResistance (beforeSearch env s) = Fin (real RESISTOR_1M)"
  "referenceVoltage (beforeSearch env s) = Fin (env (length (adcLog s)) Differential_0_3)"
  "knownVoltage (beforeSearch env s) = Fin (env (Suc (length (adcLog s))) Differential_2_3)"
  by (simp_all add: beforeSearch_def removeParallel_eq readKnown_def readReference_def
        readADC_def computeVolts_def)

lemma rev_upt_4: "k \<le> 4 \<Longrightarrow> rev [k..<4] = take (4 - k) [3, 2, 1, 0]"
proof -
  assume "k \<le> 4"
  then consider "k = 0" | "k = 1" | "k = 2" | "k = 3" | "k = 4" by linarith
  then show ?thesis by cases (simp_all add: upt_rec)
qed


lemma bench_before:
  "beforeSearch bench initial =
     initial\<lparr>referenceVoltage := Fin 5, knownVoltage := Fin 4.5,
       adcLog := [(Differential_0_3, GAIN_TWOTHIRDS), (Differential_2_3, GAIN_TWOTHIRDS)]\<rparr>"
  by (simp add: beforeSearch_def removeParallel_eq readKnown_def readReference_def
        readADC_def computeVolts_def initial_def bench_def NUMBER_OF_SWITCHES_def)


lemma addParallel_step:
  "referenceVoltage s * Fin 0.75 < knownVoltage s \<Longrightarrow> 0 < openSwitches s \<Longrightarrow>
   addParallel env s = addParallel env (enableNext env s)"
  by (subst addParallel.simps) simp

lemma addParallel_stop:
  "\<not> (referenceVoltage s * Fin 0.75 < knownVoltage s \<and> 0 < openSwitches s) \<Longrightarrow>
   addParallel env s = s"
  by (subst addParallel.simps) auto



lemma readVoltages_adcLog:
  "adcLog (readVoltages env s) =
     adcLog (addParallel env (beforeSearch env s)) @
       [(Differential_0_1, gain s),
        (Differential_0_1,
         selectGain (Fin (env (length (adcLog (addParallel env (beforeSearch env s))))
                              Differential_0_1)))]"
  by (simp add: readVoltages_def beforeSearch_def [symmetric] Let_def readUnknown_def setGain_def readADC_def
        computeVolts_def addParallel_preserves)
     (simp add: beforeSearch_def removeParallel_eq readKnown_def readReference_def readADC_def)

lemma readVoltages_gain: "gain (readVoltages env s) = GAIN_TWOTHIRDS"
  by (simp add: readVoltages_def Let_def setGain_def)

lemma calculate_gain:
  "gain (calculateCurrent s) = gain s" "gain (calculateResistance s) = gain s"
  "gain (displayMeasurement s) = gain s"
  by (simp_all add: calculateCurrent_def calculateResistance_def displayMeasurement_def
        lcdSend_def Let_def)

subsection \<open>The calculators and the bench scenario\<close>

lemma calculateResistance_frame:
  "unknownVoltage (calculateResistance s) = unknownVoltage s"
  "current (calculateResistance s) = current s"
  by (simp_all add: calculateResistance_def Let_def)

lemma calculateResistance_funpow_frame:
  "unknownVoltage ((calculateResistance ^^ n) s) = unknownVoltage s \<and>
   current ((calculateResistance ^^ n) s) = current s"
  by (induction n) (simp_all add: calculateResistance_frame)

lemma calculateResistance_average:
  "unknownResistance (calculateResistance t) =
     (unknownResistance t + unknownVoltage t / current t) / Fin 2"
  by (simp add: calculateResistance_def Let_def)

lemma readVoltages_average: "unknownResistance (readVoltages env s) = unknownResistance s"
  by (simp add: readVoltages_def beforeSearch_def [symmetric] Let_def readUnknown_def
        setGain_def readADC_def addParallel_preserves)
     (simp add: beforeSearch_def removeParallel_eq readKnown_def readReference_def readADC_def)

lemma readVoltages_unknownVoltage:
  "unknownVoltage (readVoltages env s) =
     Fin (env (Suc (length (adcLog (addParallel env (beforeSearch env s))))) Differential_0_1)"
  by (simp add: readVoltages_def beforeSearch_def [symmetric] Let_def readUnknown_def
        setGain_def readADC_def computeVolts_def)

lemma bench_search:
  "openSwitches (addParallel bench (beforeSearch bench initial)) = 2"
  "digitalLog (addParallel bench (beforeSearch bench initial)) =
     digitalLog initial @ [(res_100k, HIGH), (res_10k, HIGH)]"
  "knownVoltage (addParallel bench (beforeSearch bench initial)) = Fin 3"
  "referenceVoltage (addParallel bench (beforeSearch bench initial)) = Fin 5"
  "knownResistance (addParallel bench (beforeSearch bench initial)) =
     Fin (1 / (1 / 990090 + 1 / 100078 + 1 / 9997))"
  by (simp_all only: bench_before)
     (simp_all add: addParallel_step addParallel_stop enableNext_def readKnown_def
        readReference_def readADC_def computeVolts_def initial_def bench_def digitalWrite_def
        SWITCHES_def RESISTANCE_VALUES_def RESISTOR_1M_def pow_m1_def Let_def)

subsection \<open>The search for the taps and the choice of the gain\<close>

lemma enabledTaps_readVoltages:
  "enabledTaps (readVoltages env s) = enabledTaps (addParallel env (beforeSearch env s))"
  by (simp add: enabledTaps_def readVoltages_fields)

lemma search_open_le:
  "openSwitches s \<le> 4 \<Longrightarrow> openSwitches (addParallel env (beforeSearch env s)) \<le> 4"
  using addParallel_open_le [of env "beforeSearch env s"]
  by (simp add: beforeSearch_fields NUMBER_OF_SWITCHES_def)

lemma search_starts:
  assumes "openSwitches s \<le> 4"
    and "Fin (env (length (adcLog s)) Differential_0_3) * Fin 0.75
           < Fin (env (Suc (length (adcLog s))) Differential_2_3)"
  shows "openSwitches (addParallel env (beforeSearch env s)) < 4"
proof -
  let ?b = "beforeSearch env s"
  have o: "openSwitches ?b = 4"
    using assms(1) by (simp add: beforeSearch_fields NUMBER_OF_SWITCHES_def)
  have "addParallel env ?b = addParallel env (enableNext env ?b)"
    using assms(2) o by (intro addParallel_step) (simp_all add: beforeSearch_fields)
  then show ?thesis
    using addParallel_open_le [of env "enableNext env ?b"] o by (simp add: enableNext_simps)
qed

lemma search_exit:
  "openSwitches (addParallel env (beforeSearch env s)) = 0 \<or>
   knownVoltage (addParallel env (beforeSearch env s))
     \<le> referenceVoltage (addParallel env (beforeSearch env s)) * Fin 0.75"
proof -
  let ?a = "addParallel env (beforeSearch env s)"
  obtain a b where ab: "knownVoltage ?a = Fin a" "referenceVoltage ?a = Fin b"
    using addParallel_finite [of "beforeSearch env s" env]
    by (auto simp: beforeSearch_fields)
  show ?thesis
    using addParallel_exit [of env "beforeSearch env s"] ab by auto
qed

text \<open>
  The second loop is a number of executions of its body: as many as switches were
  closed, each of them entered with the known voltage above the threshold and a switch
  still open.
\<close>

lemma addParallel_funpow:
  "addParallel env t =
     (enableNext env ^^ (openSwitches t - openSwitches (addParallel env t))) t
   \<and> (\<forall>j < openSwitches t - openSwitches (addParallel env t).
         referenceVoltage ((enableNext env ^^ j) t) * Fin 0.75
           < knownVoltage ((enableNext env ^^ j) t)
         \<and> 0 < openSwitches ((enableNext env ^^ j) t))"
proof (induction env t rule: addParallel.induct)
  case (1 env t)
  show ?case
  proof (cases "referenceVoltage t * Fin 0.75 < knownVoltage t \<and> 0 < openSwitches t")
    case True
    let ?t' = "enableNext env t"
    let ?n' = "openSwitches ?t' - openSwitches (addParallel env ?t')"
    have eq: "addParallel env t = addParallel env ?t'"
      using True by (intro addParallel_step) simp_all
    have le: "openSwitches (addParallel env ?t') \<le> openSwitches t - 1"
      using addParallel_open_le [of env ?t'] by (simp add: enableNext_simps)
    have pos: "0 < openSwitches t" using True by simp
    have n: "openSwitches t - openSwitches (addParallel env t) = Suc ?n'"
      unfolding eq enableNext_simps using pos le by linarith
    have ih: "addParallel env ?t' = (enableNext env ^^ ?n') ?t'"
      "\<forall>j < ?n'. referenceVoltage ((enableNext env ^^ j) ?t') * Fin 0.75
           < knownVoltage ((enableNext env ^^ j) ?t')
         \<and> 0 < openSwitches ((enableNext env ^^ j) ?t')"
      using "1.IH" [OF True] by blast+
    have a: "addParallel env t = (enableNext env ^^ Suc ?n') t"
      using ih(1) by (simp add: eq funpow_swap1)
    have b: "referenceVoltage ((enableNext env ^^ j) t) * Fin 0.75
           < knownVoltage ((enableNext env ^^ j) t)
         \<and> 0 < openSwitches ((enableNext env ^^ j) t)" if "j < Suc ?n'" for j
    proof (cases j)
      case 0
      then show ?thesis using True by simp
    next
      case (Suc i)
      then have "i < ?n'" using that by simp
      then show ?thesis using ih(2) Suc by (simp add: funpow_swap1)
    qed
    show ?thesis unfolding n using a b by (simp only: eq [symmetric]) blast
  next
    case False
    have "addParallel env t = t" using False by (rule addParallel_stop)
    then show ?thesis by simp
  qed
qed


lemma search_closings:
  assumes "openSwitches s \<le> 4"
  shows "length (enabledTaps (readVoltages env s)) =
           openSwitches (beforeSearch env s)
             - openSwitches (addParallel env (beforeSearch env s))"
  using assms search_open_le [OF assms, of env]
  by (simp add: enabledTaps_def readVoltages_fields beforeSearch_fields NUMBER_OF_SWITCHES_def)

lemma initial_fields:
  "openSwitches initial = 4" "adcLog initial = []"
  "digitalLog initial = [(res_100k, LOW), (res_10k, LOW), (res_1k, LOW), (res_220, LOW)]"
  by (simp_all add: initial_def)

lemma bench_taps: "enabledTaps (readVoltages bench initial) = [3, 2]"
  by (simp add: enabledTaps_def readVoltages_fields bench_search NUMBER_OF_SWITCHES_def
        rev_upt_4)

lemma taps_take_Suc:
  "k < 4 \<Longrightarrow> take (Suc k) [3, 2, 1, 0] = take k [3, 2, 1, 0] @ [3 - (k::nat)]"
proof -
  assume "k < 4"
  then consider "k = 0" | "k = 1" | "k = 2" | "k = 3" by linarith
  then show ?thesis by cases simp_all
qed

lemma closings_known:
  assumes "openSwitches b = 4" and "knownResistance b = Fin (real RESISTOR_1M)"
  shows "k \<le> 4 \<Longrightarrow>
         openSwitches ((enableNext env ^^ k) b) = 4 - k \<and>
         knownResistance ((enableNext env ^^ k) b) =
           Fin (parallel (real RESISTOR_1M)
                  (map (\<lambda>i. real (RESISTANCE_VALUES ! i)) (take k [3, 2, 1, 0])))"
proof (induction k)
  case 0
  show ?case using assms by (simp add: parallel_def RESISTOR_1M_def)
next
  case (Suc k)
  let ?t = "(enableNext env ^^ k) b"
  let ?rs = "map (\<lambda>i. real (RESISTANCE_VALUES ! i)) (take k [3, 2, 1, 0])"
  let ?x = "real (RESISTANCE_VALUES ! (3 - k))"
  have k: "k < 4" using Suc.prems by simp
  have ih: "openSwitches ?t = 4 - k" "knownResistance ?t = Fin (parallel (real RESISTOR_1M) ?rs)"
    using Suc.IH k by simp_all
  have B: "0 < real RESISTOR_1M" by (simp add: RESISTOR_1M_def)
  have pos: "\<forall>r\<in>set ?rs. 0 < r"
    using RESISTANCE_VALUES_pos by (auto dest!: in_set_takeD)
  have x: "0 < ?x" using RESISTANCE_VALUES_pos [of "3 - k"] by simp
  have idx: "openSwitches ?t - 1 = 3 - k" using ih(1) k by simp
  have tk: "map (\<lambda>i. real (RESISTANCE_VALUES ! i)) (take (Suc k) [3, 2, 1, 0]) = ?rs @ [?x]"
    using k by (simp only: taps_take_Suc map_append list.map)
  have "knownResistance (enableNext env ?t) =
          Fin 1 / (pow_m1 (Fin (parallel (real RESISTOR_1M) ?rs)) + pow_m1 (Fin ?x))"
    by (simp only: enableNext_simps ih(2) idx)
  also have "\<dots> = Fin (1 / (1 / parallel (real RESISTOR_1M) ?rs + 1 / ?x))"
    by (rule dbl_parallel_step [OF parallel_pos [OF B pos] x])
  also have "1 / (1 / parallel (real RESISTOR_1M) ?rs + 1 / ?x) =
               parallel (real RESISTOR_1M) (?rs @ [?x])"
    by (rule parallel_snoc [OF B pos x])
  finally have "knownResistance (enableNext env ?t) =
                  Fin (parallel (real RESISTOR_1M) (?rs @ [?x]))" .
  moreover have "openSwitches (enableNext env ?t) = 4 - Suc k"
    using ih(1) by (simp add: enableNext_simps)
  ultimately show ?case unfolding tk by simp
qed

lemma closings_decrease:
  assumes "openSwitches b = 4" and "knownResistance b = Fin (real RESISTOR_1M)" and "k < 4"
  shows "knownResistance ((enableNext env ^^ Suc k) b) < knownResistance ((enableNext env ^^ k) b)"
proof -
  let ?rs = "map (\<lambda>i. real (RESISTANCE_VALUES ! i)) (take k [3, 2, 1, 0])"
  let ?x = "real (RESISTANCE_VALUES ! (3 - k))"
  have B: "0 < real RESISTOR_1M" by (simp add: RESISTOR_1M_def)
  have pos: "\<forall>r\<in>set ?rs. 0 < r"
    using RESISTANCE_VALUES_pos by (auto dest!: in_set_takeD)
  have x: "0 < ?x" using RESISTANCE_VALUES_pos [of "3 - k"] by simp
  have tk: "map (\<lambda>i. real (RESISTANCE_VALUES ! i)) (take (Suc k) [3, 2, 1, 0]) = ?rs @ [?x]"
    using assms(3) by (simp only: taps_take_Suc map_append list.map)
  have a: "knownResistance ((enableNext env ^^ k) b) = Fin (parallel (real RESISTOR_1M) ?rs)"
    using closings_known [OF assms(1,2), of k env] assms(3) by simp
  have b: "knownResistance ((enableNext env ^^ Suc k) b) =
             Fin (parallel (real RESISTOR_1M) (?rs @ [?x]))"
    using closings_known [OF assms(1,2), of "Suc k" env] assms(3) tk by simp
  show ?thesis
    unfolding a b using parallel_snoc_less [OF B pos x] by simp
qed

text \<open>
  The hypothesis that at most four switches are open, under which the properties of the
  search are stated, holds after \<^verbatim>\<open>setup\<close> and is kept by both branches of
  \<^verbatim>\<open>loop\<close>.
\<close>

lemma openSwitches_invariant:
  "openSwitches initial \<le> 4"
  "openSwitches s \<le> 4 \<Longrightarrow> openSwitches (sample env s) \<le> 4"
  "openSwitches s \<le> 4 \<Longrightarrow> openSwitches (displayMeasurement s) \<le> 4"
  by (simp_all add: initial_fields sample_def calculateCurrent_def calculateResistance_def
        displayMeasurement_def lcdSend_def Let_def readVoltages_fields search_open_le)

lemma strictTier_unfold:
  "strictTier v =
     (if - 0.256 < v \<and> v < 0.256 then GAIN_SIXTEEN
      else if - 0.512 < v \<and> v < 0.512 then GAIN_EIGHT
      else if - 1.024 < v \<and> v < 1.024 then GAIN_FOUR
      else if - 2.048 < v \<and> v < 2.048 then GAIN_TWO
      else if - 4.096 < v \<and> v < 4.096 then GAIN_ONE
      else GAIN_TWOTHIRDS)"
  by (simp add: strictTier_def gainTiers_def)

text \<open>
  The third comparison of \<^verbatim>\<open>readVoltages\<close> tests against \<open>-0.124\<close> where the
  table has \<open>-1.024\<close>: a voltage in \<open>(-1.024, -0.512]\<close> falls through to the 2x
  tier.
\<close>

lemma selectGain_slip:
  "selectGain (Fin (- 0.6)) = GAIN_TWO \<and> strictTier (- 0.6) = GAIN_FOUR"
  by (simp add: selectGain_def strictTier_unfold)

section \<open>The claims\<close>

text \<open>
  C1, as stated, fails. On the bench scenario (reference 5 V, known voltage 4.5 V, above
  75 percent) the first switch closed is that of the 100078 ohm resistor, tap 3, and the
  second that of the 9997 ohm resistor, tap 2: the tap indices decrease, and the search
  starts from the largest resistance, not from the 220 ohm tap.
\<close>

theorem taps_increasing_order_counterexample:
  "digitalLog (readVoltages bench initial) =
     digitalLog initial @ [(res_100k, HIGH), (res_10k, HIGH)]
   \<and> digitalLog (readVoltages bench initial) \<noteq>
     digitalLog initial @ [(res_220, HIGH), (res_1k, HIGH)]
   \<and> enabledTaps (readVoltages bench initial) = [3, 2]
   \<and> map ((!) RESISTANCE_VALUES) (enabledTaps (readVoltages bench initial)) = [100078, 9997]
   \<and> \<not> sorted_wrt (<) (enabledTaps (readVoltages bench initial))"
  by (simp add: bench_taps readVoltages_fields bench_search RESISTANCE_VALUES_def
        res_100k_def res_220_def)

text \<open>
  C1, amended. Started with at most four switches open, \<^verbatim>\<open>readVoltages\<close> first
  opens the closed switches, then closes switches one at a time in strictly decreasing
  tap order 3, 2, 1, 0, from the largest resistance (100078 ohm) to the smallest
  (220 ohm), and writes no switch low once it has closed one. Every closing is made on
  a known voltage above 75 percent of the reference voltage, as converted just before
  it, and the search ends at the first state in which the known voltage is at most
  75 percent of the reference voltage or all four switches are closed: the number of
  switches closed is the least number of closings after which the loop condition fails.
  The voltages \<^verbatim>\<open>readVoltages\<close> returns with are those converted after the last
  closing.
\<close>

theorem taps_enabled_in_decreasing_order:
  assumes "openSwitches s \<le> 4"
  shows "digitalLog (readVoltages env s) =
           digitalLog s
             @ map (\<lambda>i. (SWITCHES ! i, LOW)) [openSwitches s ..< 4]
             @ map (\<lambda>i. (SWITCHES ! i, HIGH)) (enabledTaps (readVoltages env s))
         \<and> enabledTaps (readVoltages env s) =
             take (4 - openSwitches (readVoltages env s)) [3, 2, 1, 0]
         \<and> map (\<lambda>i. RESISTANCE_VALUES ! i) [3, 2, 1, 0] = [100078, 9997, 1000, 220]
         \<and> (openSwitches (readVoltages env s) = 0
              \<or> knownVoltage (readVoltages env s)
                   \<le> referenceVoltage (readVoltages env s) * Fin 0.75)
         \<and> (Fin (env (length (adcLog s)) Differential_0_3) * Fin 0.75
               < Fin (env (Suc (length (adcLog s))) Differential_2_3)
             \<longrightarrow> enabledTaps (readVoltages env s) \<noteq> [])
         \<and> (j < length (enabledTaps (readVoltages env s)) \<longrightarrow>
               referenceVoltage ((enableNext env ^^ j) (beforeSearch env s)) * Fin 0.75
                 < knownVoltage ((enableNext env ^^ j) (beforeSearch env s)))
         \<and> knownVoltage (readVoltages env s) =
             knownVoltage ((enableNext env ^^ length (enabledTaps (readVoltages env s)))
                             (beforeSearch env s))
         \<and> referenceVoltage (readVoltages env s) =
             referenceVoltage ((enableNext env ^^ length (enabledTaps (readVoltages env s)))
                                 (beforeSearch env s))
         \<and> openSwitches (readVoltages env s) =
             openSwitches ((enableNext env ^^ length (enabledTaps (readVoltages env s)))
                             (beforeSearch env s))
         \<and> (LEAST k. \<not> (referenceVoltage ((enableNext env ^^ k) (beforeSearch env s)) * Fin 0.75
                             < knownVoltage ((enableNext env ^^ k) (beforeSearch env s))
                           \<and> 0 < openSwitches ((enableNext env ^^ k) (beforeSearch env s))))
             = length (enabledTaps (readVoltages env s))"
proof -
  let ?b = "beforeSearch env s"
  let ?a = "addParallel env ?b"
  let ?n = "length (enabledTaps (readVoltages env s))"
  let ?on = "\<lambda>k. referenceVoltage ((enableNext env ^^ k) ?b) * Fin 0.75
                   < knownVoltage ((enableNext env ^^ k) ?b)
                 \<and> 0 < openSwitches ((enableNext env ^^ k) ?b)"
  have le: "openSwitches ?a \<le> 4" using assms by (rule search_open_le)
  have o: "openSwitches ?b = 4"
    using assms by (simp add: beforeSearch_fields NUMBER_OF_SWITCHES_def)
  have log: "digitalLog ?a =
      digitalLog s @ map (\<lambda>i. (SWITCHES ! i, LOW)) [openSwitches s ..< 4]
        @ map (\<lambda>i. (SWITCHES ! i, HIGH)) (enabledTaps ?a)"
    by (subst addParallel_log)
       (simp add: beforeSearch_fields(2) o enabledTaps_def NUMBER_OF_SWITCHES_def)
  have taps: "enabledTaps ?a = take (4 - openSwitches ?a) [3, 2, 1, 0]"
    using le by (simp add: enabledTaps_def NUMBER_OF_SWITCHES_def rev_upt_4)
  have vals: "map (\<lambda>i. RESISTANCE_VALUES ! i) [3, 2, 1, 0] = [100078, 9997, 1000, 220]"
    by (simp add: RESISTANCE_VALUES_def)
  have first: "Fin (env (length (adcLog s)) Differential_0_3) * Fin 0.75
               < Fin (env (Suc (length (adcLog s))) Differential_2_3)
             \<longrightarrow> enabledTaps ?a \<noteq> []"
    using search_starts [OF assms, of env]
    by (auto simp: enabledTaps_def NUMBER_OF_SWITCHES_def)
  have n: "?n = openSwitches ?b - openSwitches ?a"
    using assms by (rule search_closings)
  have it: "?a = (enableNext env ^^ ?n) ?b"
    unfolding n using addParallel_funpow [of env ?b] by blast
  have before: "?on k" if "k < ?n" for k
    using that addParallel_funpow [of env ?b] unfolding n by blast
  have stop: "\<not> ?on ?n"
    using addParallel_exit [of env ?b] unfolding it [symmetric] by auto
  have least: "(LEAST k. \<not> ?on k) = ?n"
  proof (rule Least_equality)
    show "\<not> ?on ?n" by (rule stop)
  next
    fix y assume "\<not> ?on y"
    then show "?n \<le> y" using before [of y] by (cases "y < ?n") auto
  qed
  have fields: "knownVoltage (readVoltages env s) = knownVoltage ((enableNext env ^^ ?n) ?b)"
    "referenceVoltage (readVoltages env s) = referenceVoltage ((enableNext env ^^ ?n) ?b)"
    "openSwitches (readVoltages env s) = openSwitches ((enableNext env ^^ ?n) ?b)"
    using it by (simp_all only: readVoltages_fields)
  have ex: "openSwitches (readVoltages env s) = 0
              \<or> knownVoltage (readVoltages env s)
                   \<le> referenceVoltage (readVoltages env s) * Fin 0.75"
    using search_exit [of env s] by (simp only: readVoltages_fields)
  have l: "digitalLog (readVoltages env s) =
           digitalLog s
             @ map (\<lambda>i. (SWITCHES ! i, LOW)) [openSwitches s ..< 4]
             @ map (\<lambda>i. (SWITCHES ! i, HIGH)) (enabledTaps (readVoltages env s))"
    using log by (simp only: readVoltages_fields enabledTaps_readVoltages)
  have t: "enabledTaps (readVoltages env s) =
             take (4 - openSwitches (readVoltages env s)) [3, 2, 1, 0]"
    using taps by (simp only: readVoltages_fields enabledTaps_readVoltages)
  have f: "Fin (env (length (adcLog s)) Differential_0_3) * Fin 0.75
               < Fin (env (Suc (length (adcLog s))) Differential_2_3)
             \<longrightarrow> enabledTaps (readVoltages env s) \<noteq> []"
    using first by (simp only: enabledTaps_readVoltages)
  have bj: "j < ?n \<longrightarrow>
               referenceVoltage ((enableNext env ^^ j) ?b) * Fin 0.75
                 < knownVoltage ((enableNext env ^^ j) ?b)"
    using before [of j] by blast
  show ?thesis
    using l t vals ex f bj fields least by (intro conjI)
qed

theorem taps_enabled_in_decreasing_order_witness:
  "openSwitches initial \<le> 4
   \<and> Fin (bench (length (adcLog initial)) Differential_0_3) * Fin 0.75
       < Fin (bench (Suc (length (adcLog initial))) Differential_2_3)
   \<and> digitalLog (readVoltages bench initial) =
       digitalLog initial @ [(res_100k, HIGH), (res_10k, HIGH)]
   \<and> enabledTaps (readVoltages bench initial) \<noteq> []
   \<and> (1::nat) < length (enabledTaps (readVoltages bench initial))
   \<and> referenceVoltage ((enableNext bench ^^ 1) (beforeSearch bench initial)) * Fin 0.75
       < knownVoltage ((enableNext bench ^^ 1) (beforeSearch bench initial))
   \<and> (LEAST k. \<not> (referenceVoltage ((enableNext bench ^^ k) (beforeSearch bench initial))
                        * Fin 0.75
                      < knownVoltage ((enableNext bench ^^ k) (beforeSearch bench initial))
                    \<and> 0 < openSwitches ((enableNext bench ^^ k) (beforeSearch bench initial))))
       = 2"
proof -
  have h1: "openSwitches initial \<le> 4" by (simp add: initial_fields)
  have h2: "Fin (bench (length (adcLog initial)) Differential_0_3) * Fin 0.75
       < Fin (bench (Suc (length (adcLog initial))) Differential_2_3)"
    by (simp add: initial_fields bench_def)
  have h3: "(1::nat) < length (enabledTaps (readVoltages bench initial))"
    by (simp add: bench_taps)
  note inst = taps_enabled_in_decreasing_order [OF h1, of bench 1]
  have "digitalLog (readVoltages bench initial) =
       digitalLog initial @ [(res_100k, HIGH), (res_10k, HIGH)]"
    using inst by (simp add: bench_taps SWITCHES_def initial_fields(1))
  moreover have "enabledTaps (readVoltages bench initial) \<noteq> []"
    using inst h2 by blast
  moreover have "referenceVoltage ((enableNext bench ^^ 1) (beforeSearch bench initial)) * Fin 0.75
       < knownVoltage ((enableNext bench ^^ 1) (beforeSearch bench initial))"
    using inst h3 by blast
  moreover have "(LEAST k. \<not> (referenceVoltage ((enableNext bench ^^ k) (beforeSearch bench initial))
                        * Fin 0.75
                      < knownVoltage ((enableNext bench ^^ k) (beforeSearch bench initial))
                    \<and> 0 < openSwitches ((enableNext bench ^^ k) (beforeSearch bench initial))))
       = length (enabledTaps (readVoltages bench initial))"
    using inst by (elim conjE)
  moreover have "length (enabledTaps (readVoltages bench initial)) = 2"
    by (simp add: bench_taps)
  ultimately show ?thesis using h1 h2 h3 by (simp only: simp_thms)
qed

text \<open>
  C2, as stated, fails. A voltage of exactly 0.256 V lies on the bound shared by the
  16x and the 8x tier; the claim sends it to the higher gain, 16x, and the comparisons of
  the sketch, which are strict, send it to 8x.
\<close>

theorem gain_boundary_counterexample:
  "selectGain (Fin 0.256) = GAIN_EIGHT \<and> spec_narrowestTier 0.256 = Some GAIN_SIXTEEN"
  by (simp add: selectGain_def spec_narrowestTier_def gainTiers_def)

text \<open>
  C2, amended. For every unknown-resistor voltage outside \<open>(-1.024, -0.512]\<close>, the
  gain selected is that of the first tier, from the narrowest (16x) to the widest
  (2/3x), whose range contains the voltage strictly between its bounds, and the widest
  tier when no range does; a voltage on a bound goes to the next wider tier.
\<close>

theorem selectGain_strictTier:
  "\<not> (- 1.024 < v \<and> v \<le> - 0.512) \<Longrightarrow> selectGain (Fin v) = strictTier v"
  unfolding strictTier_unfold selectGain_def
  by (simp only: less_dbl.simps) auto

theorem selectGain_strictTier_witness:
  "\<not> (- 1.024 < (0.256::real) \<and> (0.256::real) \<le> - 0.512)
   \<and> selectGain (Fin 0.256) = strictTier 0.256 \<and> strictTier 0.256 = GAIN_EIGHT"
  using selectGain_strictTier [of "0.256"] by (simp add: strictTier_unfold)

text \<open>
  C3. In every sample cycle the current is set to the known voltage over the known
  resistance, both as \<^verbatim>\<open>readVoltages\<close> has just left them; the instantaneous
  estimate is the unknown voltage over that current; and the running average becomes
  half the sum of the average the cycle started with and that estimate. When both are
  finite numbers \<open>a\<close> and \<open>e\<close>, that is their mean \<open>(a + e) / 2\<close>.
\<close>

theorem sample_current_and_average:
  "current (sample env s) =
     knownVoltage (readVoltages env s) / knownResistance (readVoltages env s)
   \<and> unknownResistance (sample env s) =
       (unknownResistance s + unknownVoltage (readVoltages env s) / current (sample env s))
         / Fin 2
   \<and> (unknownResistance s = Fin a
        \<and> unknownVoltage (readVoltages env s) / current (sample env s) = Fin e
       \<longrightarrow> unknownResistance (sample env s) = Fin ((a + e) / 2))"
  by (simp add: sample_def calculateCurrent_def calculateResistance_def Let_def
        readVoltages_average)

theorem sample_current_and_average_witness:
  "unknownResistance initial = Fin 0
   \<and> unknownVoltage (readVoltages bench initial) / current (sample bench initial) =
       Fin (0.3 / (3 / (1 / (1 / 990090 + 1 / 100078 + 1 / 9997))))
   \<and> unknownResistance (sample bench initial) =
       Fin ((0 + 0.3 / (3 / (1 / (1 / 990090 + 1 / 100078 + 1 / 9997)))) / 2)"
proof -
  have h1: "unknownResistance initial = Fin 0"
    by (simp add: initial_def)
  have c: "current (sample bench initial) = Fin (3 / (1 / (1 / 990090 + 1 / 100078 + 1 / 9997)))"
    by (simp add: sample_def calculateCurrent_def calculateResistance_def Let_def
          readVoltages_fields bench_search)
  have h2: "unknownVoltage (readVoltages bench initial) / current (sample bench initial) =
       Fin (0.3 / (3 / (1 / (1 / 990090 + 1 / 100078 + 1 / 9997))))"
    by (simp add: c readVoltages_unknownVoltage bench_def)
  show ?thesis
    using h1 h2
      sample_current_and_average [of bench initial 0
        "0.3 / (3 / (1 / (1 / 990090 + 1 / 100078 + 1 / 9997)))"]
    by blast
qed

text \<open>
  C4. From an average \<open>a0\<close>, with an instantaneous estimate that stays at \<open>e\<close>,
  \<open>n\<close> updates of the running average leave it at \<open>e - (e - a0) / 2 ^ n\<close>, for
  every \<open>n\<close> (zero included).
\<close>

theorem running_average_closed_form:
  assumes "unknownResistance s = Fin a0"
    and "unknownVoltage s / current s = Fin e"
  shows "unknownResistance ((calculateResistance ^^ n) s) = Fin (e - (e - a0) / 2 ^ n)"
proof (induction n)
  case 0
  show ?case using assms(1) by simp
next
  case (Suc n)
  let ?t = "(calculateResistance ^^ n) s"
  have est: "unknownVoltage ?t / current ?t = Fin e"
    using assms(2) by (simp add: calculateResistance_funpow_frame)
  have "unknownResistance ((calculateResistance ^^ Suc n) s) =
          (unknownResistance ?t + unknownVoltage ?t / current ?t) / Fin 2"
    by (simp add: calculateResistance_average)
  also have "\<dots> = Fin ((e - (e - a0) / 2 ^ n + e) / 2)"
    by (simp add: Suc est)
  also have "(e - (e - a0) / 2 ^ n + e) / 2 = e - (e - a0) / 2 ^ Suc n"
    by (simp add: field_simps)
  finally show ?case .
qed

theorem running_average_closed_form_witness:
  "unknownResistance (initial\<lparr>unknownVoltage := Fin 6, current := Fin 3\<rparr>) = Fin 0
   \<and> unknownVoltage (initial\<lparr>unknownVoltage := Fin 6, current := Fin 3\<rparr>)
       / current (initial\<lparr>unknownVoltage := Fin 6, current := Fin 3\<rparr>) = Fin 2
   \<and> unknownResistance
        ((calculateResistance ^^ 3) (initial\<lparr>unknownVoltage := Fin 6, current := Fin 3\<rparr>))
       = Fin 1.75"
proof -
  have h1: "unknownResistance (initial\<lparr>unknownVoltage := Fin 6, current := Fin 3\<rparr>) = Fin 0"
    by (simp add: initial_def)
  have h2: "unknownVoltage (initial\<lparr>unknownVoltage := Fin 6, current := Fin 3\<rparr>)
       / current (initial\<lparr>unknownVoltage := Fin 6, current := Fin 3\<rparr>) = Fin 2"
    by simp
  show ?thesis
    using h1 h2 running_average_closed_form [OF h1 h2, of 3] by simp
qed

text \<open>
  C5. From the state in which the search starts, after \<open>k\<close> closings (\<open>k\<close> up to
  four) the known resistance is the reciprocal-sum combination of the 990090 ohm baseline
  with the resistors of the \<open>k\<close> taps closed, and each further closing makes it
  strictly smaller. So it is when \<^verbatim>\<open>readVoltages\<close> returns, for the taps then
  closed. The baseline in parallel with the 220 ohm tap alone is within 0.005 of
  219.95 ohms.
\<close>

theorem known_resistance_parallel:
  assumes "openSwitches s \<le> 4"
  shows "(k \<le> 4 \<longrightarrow>
            knownResistance ((enableNext env ^^ k) (beforeSearch env s)) =
              Fin (parallel (real RESISTOR_1M)
                     (map (\<lambda>i. real (RESISTANCE_VALUES ! i)) (take k [3, 2, 1, 0]))))
         \<and> (k < 4 \<longrightarrow>
              knownResistance ((enableNext env ^^ Suc k) (beforeSearch env s))
                < knownResistance ((enableNext env ^^ k) (beforeSearch env s)))
         \<and> knownResistance (readVoltages env s) =
             Fin (parallel (real RESISTOR_1M)
                    (map (\<lambda>i. real (RESISTANCE_VALUES ! i)) (enabledTaps (readVoltages env s))))
         \<and> knownResistance
               (enableNext env
                  (s\<lparr>knownResistance := Fin (real RESISTOR_1M), openSwitches := 1\<rparr>))
             = Fin (parallel (real RESISTOR_1M) [220])
         \<and> \<bar>parallel (real RESISTOR_1M) [220] - 219.95\<bar> < 0.005"
proof -
  let ?b = "beforeSearch env s"
  have o: "openSwitches ?b = 4"
    using assms by (simp add: beforeSearch_fields NUMBER_OF_SWITCHES_def)
  have kb: "knownResistance ?b = Fin (real RESISTOR_1M)"
    by (simp add: beforeSearch_fields)
  have k0: "knownResistance ?b = Fin (parallel (real RESISTOR_1M) [])"
    by (simp add: beforeSearch_fields parallel_def RESISTOR_1M_def)
  have "knownResistance (addParallel env ?b) =
      Fin (parallel (real RESISTOR_1M)
        ([] @ map (\<lambda>i. real (RESISTANCE_VALUES ! i))
                (rev [openSwitches (addParallel env ?b) ..< openSwitches ?b])))"
    using o by (intro addParallel_known [OF k0]) (simp_all add: RESISTOR_1M_def)
  then have 1: "knownResistance (readVoltages env s) =
           Fin (parallel (real RESISTOR_1M)
                  (map (\<lambda>i. real (RESISTANCE_VALUES ! i)) (enabledTaps (readVoltages env s))))"
    by (simp add: readVoltages_fields enabledTaps_def o NUMBER_OF_SWITCHES_def)
  have 3: "knownResistance
               (enableNext env
                  (s\<lparr>knownResistance := Fin (real RESISTOR_1M), openSwitches := 1\<rparr>))
             = Fin (parallel (real RESISTOR_1M) [220])"
    by (simp add: enableNext_simps RESISTANCE_VALUES_def RESISTOR_1M_def pow_m1_def
          parallel_def)
  have 4: "\<bar>parallel (real RESISTOR_1M) [220] - 219.95\<bar> < 0.005"
    by (simp add: RESISTOR_1M_def parallel_def)
  show ?thesis
    using 1 3 4 closings_known [OF o kb, of k env] closings_decrease [OF o kb, of k env]
    by blast
qed

theorem known_resistance_parallel_witness:
  "openSwitches initial \<le> 4 \<and> (1::nat) \<le> 4 \<and> (1::nat) < 4
   \<and> knownResistance ((enableNext bench ^^ 1) (beforeSearch bench initial)) =
       Fin (parallel 990090 [100078])
   \<and> knownResistance ((enableNext bench ^^ Suc 1) (beforeSearch bench initial))
       < knownResistance ((enableNext bench ^^ 1) (beforeSearch bench initial))
   \<and> knownResistance (readVoltages bench initial) = Fin (parallel 990090 [100078, 9997])"
proof -
  have h1: "openSwitches initial \<le> 4" by (simp add: initial_fields)
  have lt: "(1::nat) < 4" by simp
  note inst = known_resistance_parallel [OF h1, of 1 bench]
  have "knownResistance ((enableNext bench ^^ 1) (beforeSearch bench initial)) =
       Fin (parallel 990090 [100078])"
    using inst by (simp add: RESISTANCE_VALUES_def RESISTOR_1M_def)
  moreover have "knownResistance ((enableNext bench ^^ Suc 1) (beforeSearch bench initial))
       < knownResistance ((enableNext bench ^^ 1) (beforeSearch bench initial))"
    using inst lt by blast
  moreover have "knownResistance (readVoltages bench initial) =
       Fin (parallel 990090 [100078, 9997])"
    using inst by (simp add: bench_taps RESISTANCE_VALUES_def RESISTOR_1M_def)
  ultimately show ?thesis using h1 by simp
qed

text \<open>
  C6. When the running average is negative or at least 1.5e6 ohms, a display refresh
  resets it to zero, clears the display and prints the overload mark \<open>OL\<close> and, on
  the second row, the supported range; it changes nothing else and returns normally.
\<close>

theorem display_out_of_range:
  "unknownResistance s < Fin 0 \<or> Fin 1500000 \<le> unknownResistance s \<Longrightarrow>
   displayMeasurement s =
     s\<lparr>unknownResistance := Fin 0,
       lcd := lcd s @ [Clear, SetCursor 7 0, Print ''OL'', SetCursor 0 1,
                       Print ''Range: 0 - 1.5M'']\<rparr>"
  by (simp add: displayMeasurement_def lcdSend_def Let_def)

theorem display_out_of_range_witness:
  "(unknownResistance (initial\<lparr>unknownResistance := Fin 2000000\<rparr>) < Fin 0
    \<or> Fin 1500000 \<le> unknownResistance (initial\<lparr>unknownResistance := Fin 2000000\<rparr>))
   \<and> unknownResistance (displayMeasurement (initial\<lparr>unknownResistance := Fin 2000000\<rparr>))
       = Fin 0
   \<and> lcd (displayMeasurement (initial\<lparr>unknownResistance := Fin 2000000\<rparr>)) =
       [Clear, SetCursor 7 0, Print ''OL'', SetCursor 0 1, Print ''Range: 0 - 1.5M'']"
proof -
  have h: "unknownResistance (initial\<lparr>unknownResistance := Fin 2000000\<rparr>) < Fin 0
    \<or> Fin 1500000 \<le> unknownResistance (initial\<lparr>unknownResistance := Fin 2000000\<rparr>)"
    by simp
  show ?thesis
    using h display_out_of_range [OF h] by (simp add: initial_def)
qed

text \<open>
  C7. When the running average \<open>a\<close> is in range (\<open>0 \<le> a < 1.5e6\<close>), the value
  printed is \<open>a - 0.08\<close>, times 1.025 when \<open>a - 0.08\<close> is at least 5e5, followed by
  the unit. An average of 600000.08 prints 615000, and an average of 0.08 prints 0.
\<close>

theorem display_in_range_value:
  "(unknownResistance s = Fin a \<and> 0 \<le> a \<and> a < 1500000 \<longrightarrow>
      lcd (displayMeasurement s) =
        lcd s @ [Clear, SetCursor 0 0,
                 PrintValue (Fin (if 500000 \<le> a - 0.08 then (a - 0.08) * 1.025
                                  else a - 0.08)) '' ohms''])
   \<and> lcd (displayMeasurement (s\<lparr>unknownResistance := Fin 600000.08\<rparr>)) =
        lcd s @ [Clear, SetCursor 0 0, PrintValue (Fin 615000) '' ohms'']
   \<and> lcd (displayMeasurement (s\<lparr>unknownResistance := Fin 0.08\<rparr>)) =
        lcd s @ [Clear, SetCursor 0 0, PrintValue (Fin 0) '' ohms'']"
  by (simp add: displayMeasurement_def lcdSend_def Let_def LEAD_RESISTANCE_def)

theorem display_in_range_value_witness:
  "unknownResistance (initial\<lparr>unknownResistance := Fin 100\<rparr>) = Fin 100
   \<and> (0::real) \<le> 100 \<and> (100::real) < 1500000
   \<and> lcd (displayMeasurement (initial\<lparr>unknownResistance := Fin 100\<rparr>)) =
       [Clear, SetCursor 0 0, PrintValue (Fin 99.92) '' ohms'']"
  using display_in_range_value [of "initial\<lparr>unknownResistance := Fin 100\<rparr>" 100]
  by (simp add: initial_def)

text \<open>
  C8. Whatever the state and the readings, \<^verbatim>\<open>readVoltages\<close> returns with the gain
  set to the 2/3x tier, and nothing else in the sampling or the display branch of the
  loop changes the gain. So in the cycle that follows, with or without a display
  refresh in between, the conversion whose result picks the gain (the last but one of
  the cycle) is made at the 2/3x tier. The gain is one field holding one tier.
\<close>

theorem gain_reset_after_read:
  "gain (readVoltages env s) = GAIN_TWOTHIRDS
   \<and> gain (sample env s) = GAIN_TWOTHIRDS
   \<and> gain (displayMeasurement (sample env s)) = GAIN_TWOTHIRDS
   \<and> last (butlast (adcLog (readVoltages env (sample env s)))) =
        (Differential_0_1, GAIN_TWOTHIRDS)
   \<and> last (butlast (adcLog (readVoltages env (displayMeasurement (sample env s))))) =
        (Differential_0_1, GAIN_TWOTHIRDS)"
  by (simp add: readVoltages_adcLog sample_def calculate_gain readVoltages_gain butlast_append)

text \<open>
  C9. When the running average is in range, a display refresh changes the display and
  nothing else: the running average, the known resistance, the three voltages and the
  current are what they were. The value with the lead resistance subtracted and the
  2.5 percent correction is only printed.
\<close>

theorem display_in_range_frame:
  assumes "Fin 0 \<le> unknownResistance s" and "unknownResistance s < Fin 1500000"
  shows "displayMeasurement s = s\<lparr>lcd := lcd (displayMeasurement s)\<rparr>
         \<and> unknownResistance (displayMeasurement s) = unknownResistance s
         \<and> knownResistance (displayMeasurement s) = knownResistance s
         \<and> unknownVoltage (displayMeasurement s) = unknownVoltage s
         \<and> knownVoltage (displayMeasurement s) = knownVoltage s
         \<and> referenceVoltage (displayMeasurement s) = referenceVoltage s
         \<and> current (displayMeasurement s) = current s"
proof -
  obtain a where a: "unknownResistance s = Fin a" "0 \<le> a" "a < 1500000"
    using assms by (cases "unknownResistance s") simp_all
  then show ?thesis
    by (simp add: displayMeasurement_def lcdSend_def Let_def LEAD_RESISTANCE_def)
qed

theorem display_in_range_frame_witness:
  "Fin 0 \<le> unknownResistance (initial\<lparr>unknownResistance := Fin 600000.08\<rparr>)
   \<and> unknownResistance (initial\<lparr>unknownResistance := Fin 600000.08\<rparr>) < Fin 1500000
   \<and> unknownResistance (displayMeasurement (initial\<lparr>unknownResistance := Fin 600000.08\<rparr>))
       = Fin 600000.08"
proof -
  have h1: "Fin 0 \<le> unknownResistance (initial\<lparr>unknownResistance := Fin 600000.08\<rparr>)"
    by simp
  have h2: "unknownResistance (initial\<lparr>unknownResistance := Fin 600000.08\<rparr>) < Fin 1500000"
    by simp
  show ?thesis
    using h1 h2 display_in_range_frame [OF h1 h2] by simp
qed

text \<open>
  C10. The range check comes before the lead resistance is subtracted, so for a running
  average \<open>a\<close> with \<open>0 \<le> a < 0.08\<close> a display refresh prints the negative value
  \<open>a - 0.08\<close> with the unit, and no overload mark. The value 0, to which the
  overload branch resets the average, is one of these.
\<close>

theorem display_below_lead_resistance:
  assumes "unknownResistance s = Fin a" and "0 \<le> a" and "a < 0.08"
  shows "lcd (displayMeasurement s) =
           lcd s @ [Clear, SetCursor 0 0, PrintValue (Fin (a - 0.08)) '' ohms'']
         \<and> a - 0.08 < 0
         \<and> Print ''OL'' \<notin> set (drop (length (lcd s)) (lcd (displayMeasurement s)))"
  using assms
  by (simp add: displayMeasurement_def lcdSend_def Let_def LEAD_RESISTANCE_def)

theorem display_below_lead_resistance_witness:
  "unknownResistance (displayMeasurement (initial\<lparr>unknownResistance := Fin 2000000\<rparr>)) = Fin 0
   \<and> (0::real) \<le> 0 \<and> (0::real) < 0.08
   \<and> lcd (displayMeasurement (displayMeasurement (initial\<lparr>unknownResistance := Fin 2000000\<rparr>))) =
       lcd (displayMeasurement (initial\<lparr>unknownResistance := Fin 2000000\<rparr>))
         @ [Clear, SetCursor 0 0, PrintValue (Fin (- 0.08)) '' ohms'']"
proof -
  have h: "unknownResistance (displayMeasurement (initial\<lparr>unknownResistance := Fin 2000000\<rparr>))
             = Fin 0"
    by (simp add: displayMeasurement_def lcdSend_def Let_def)
  show ?thesis
    using h display_below_lead_resistance [OF h, simplified] by simp
qed

end
